theory Spec2Isabelle
  imports
    Complex_Main
    "HOL-Library.Char_ord"
    "HOL-Library.List_Lexorder"
    "HOL-Library.Product_Lexorder"
begin

section \<open>Strings\<close>

text \<open>
  A Python \<open>str\<close> is modelled as a \<open>string\<close>, the list of its UTF-8 bytes. The
  case and whitespace operations below are those of Python on the ASCII range; a byte
  outside it is neither a letter, a digit nor whitespace, and is left as it is.
  Strings compare by code point in Python, which is the byte order of their UTF-8 form.
\<close>

definition is_upper :: "char \<Rightarrow> bool" where
  "is_upper c = (CHR ''A'' \<le> c \<and> c \<le> CHR ''Z'')"

definition is_lower :: "char \<Rightarrow> bool" where
  "is_lower c = (CHR ''a'' \<le> c \<and> c \<le> CHR ''z'')"

definition is_digit :: "char \<Rightarrow> bool" where
  "is_digit c = (CHR ''0'' \<le> c \<and> c \<le> CHR ''9'')"

text \<open>\<open>str.isspace\<close> on ASCII: tab, line feed, vertical tab, form feed, carriage
  return, the four separators 0x1C to 0x1F, and the space.\<close>

definition is_space :: "char \<Rightarrow> bool" where
  "is_space c = (let n = (of_char c :: nat) in (9 \<le> n \<and> n \<le> 13) \<or> (28 \<le> n \<and> n \<le> 32))"

definition to_lower :: "char \<Rightarrow> char" where
  "to_lower c = (if is_upper c then char_of (of_char c + (32 :: nat)) else c)"

definition to_upper :: "char \<Rightarrow> char" where
  "to_upper c = (if is_lower c then char_of (of_char c - (32 :: nat)) else c)"

text \<open>\<open>s.lower()\<close>\<close>

definition str_lower :: "string \<Rightarrow> string" where
  "str_lower s = map to_lower s"

text \<open>\<open>s.strip()\<close>: whitespace removed at both ends.\<close>

definition str_strip :: "string \<Rightarrow> string" where
  "str_strip s = rev (dropWhile is_space (rev (dropWhile is_space s)))"

text \<open>
  \<open>s.title()\<close>: a cased character is upper-cased when the character before it is
  not cased, and lower-cased when it is; the flag is whether the previous character was
  cased.
\<close>

fun title_from :: "bool \<Rightarrow> string \<Rightarrow> string" where
  "title_from previous_is_cased [] = []"
| "title_from previous_is_cased (c # cs) =
     (if is_lower c then
        (if previous_is_cased then c else to_upper c) # title_from True cs
      else if is_upper c then
        (if previous_is_cased then to_lower c else c) # title_from True cs
      else c # title_from False cs)"

definition str_title :: "string \<Rightarrow> string" where
  "str_title s = title_from False s"

text \<open>\<open>s.startswith(p)\<close>\<close>

fun startswith :: "string \<Rightarrow> string \<Rightarrow> bool" where
  "startswith s [] = True"
| "startswith [] (p # ps) = False"
| "startswith (c # cs) (p # ps) = (c = p \<and> startswith cs ps)"

text \<open>\<open>p in s\<close>: \<open>p\<close> occurs in \<open>s\<close> at some position.\<close>

fun str_contains :: "string \<Rightarrow> string \<Rightarrow> bool" where
  "str_contains p [] = (p = [])"
| "str_contains p (c # cs) = (startswith (c # cs) p \<or> str_contains p cs)"

text \<open>
  \<open>s.split(sep)[0]\<close> for a separator that is not empty: the text before the first
  occurrence of \<open>sep\<close>, all of \<open>s\<close> when there is none.
\<close>

fun split_head :: "string \<Rightarrow> string \<Rightarrow> string" where
  "split_head sep [] = []"
| "split_head sep (c # cs) = (if startswith (c # cs) sep then [] else c # split_head sep cs)"

text \<open>
  \<open>s.replace(old, new)\<close> for \<open>old\<close> not empty: one pass from the left, every
  occurrence found replaced, the scan resuming after the occurrence. (With \<open>old\<close> empty
  Python puts \<open>new\<close> around every character; the program never does that.)
\<close>

function str_replace :: "string \<Rightarrow> string \<Rightarrow> string \<Rightarrow> string" where
  "str_replace old new s =
     (if old = [] \<or> s = [] then s
      else if startswith s old then new @ str_replace old new (drop (length old) s)
      else hd s # str_replace old new (tl s))"
  by pat_completeness auto
termination
  by (relation "measure (\<lambda>(old, new, s). length s)") (auto simp: neq_Nil_conv)

declare str_replace.simps [simp del]

section \<open>Dates\<close>

text \<open>
  A \<open>datetime.date\<close> is its year, month and day, in that order; Python compares
  dates as these triples, lexicographically.
\<close>

type_synonym date = "nat \<times> nat \<times> nat"




definition is_leap :: "nat \<Rightarrow> bool" where
  "is_leap y = (y mod 4 = 0 \<and> (y mod 100 \<noteq> 0 \<or> y mod 400 = 0))"

definition days_in_month :: "nat \<Rightarrow> nat \<Rightarrow> nat" where
  "days_in_month y m =
     (if m = 2 then (if is_leap y then 29 else 28)
      else if m = 4 \<or> m = 6 \<or> m = 9 \<or> m = 11 then 30
      else 31)"

definition digit_val :: "char \<Rightarrow> nat" where
  "digit_val c = of_char c - 48"

text \<open>\<open>int(s)\<close> on a string of decimal digits, which \<open>int\<close> strips first.\<close>

definition to_int :: "string \<Rightarrow> nat" where
  "to_int s = foldl (\<lambda>n c. 10 * n + digit_val c) 0 (str_strip s)"

text \<open>
  \<open>datetime.strptime(s, "%m/%d/%Y")\<close>. The library turns the format into the regular
  expression
  \<^verbatim>\<open>(?P<m>1[0-2]|0[1-9]|[1-9])/(?P<d>3[0-1]|[1-2]\d|0[1-9]|[1-9]| [1-9])/(?P<Y>\d\d\d\d)\<close>
  and matches it at the start of \<open>s\<close>. Each function below gives, for one piece of the
  expression, the ways it matches at the start of a string, in the order the matcher
  tries them: the text of the group and the rest of the string. The digits are the
  ASCII digits.
\<close>

definition in_range :: "char \<Rightarrow> char \<Rightarrow> char \<Rightarrow> bool" where
  "in_range lo hi c = (lo \<le> c \<and> c \<le> hi)"

fun re_two :: "(char \<Rightarrow> bool) \<Rightarrow> (char \<Rightarrow> bool) \<Rightarrow> string \<Rightarrow> (string \<times> string) list" where
  "re_two P Q (a # b # r) = (if P a \<and> Q b then [([a, b], r)] else [])"
| "re_two P Q s = []"

fun re_one :: "(char \<Rightarrow> bool) \<Rightarrow> string \<Rightarrow> (string \<times> string) list" where
  "re_one P (a # r) = (if P a then [([a], r)] else [])"
| "re_one P s = []"

definition re_m :: "string \<Rightarrow> (string \<times> string) list" where
  "re_m s =
     re_two (\<lambda>c. c = CHR ''1'') (in_range CHR ''0'' CHR ''2'') s @
     re_two (\<lambda>c. c = CHR ''0'') (in_range CHR ''1'' CHR ''9'') s @
     re_one (in_range CHR ''1'' CHR ''9'') s"

definition re_d :: "string \<Rightarrow> (string \<times> string) list" where
  "re_d s =
     re_two (\<lambda>c. c = CHR ''3'') (in_range CHR ''0'' CHR ''1'') s @
     re_two (in_range CHR ''1'' CHR ''2'') is_digit s @
     re_two (\<lambda>c. c = CHR ''0'') (in_range CHR ''1'' CHR ''9'') s @
     re_one (in_range CHR ''1'' CHR ''9'') s @
     re_two (\<lambda>c. c = CHR '' '') (in_range CHR ''1'' CHR ''9'') s"

fun re_Y :: "string \<Rightarrow> (string \<times> string) list" where
  "re_Y (a # b # c # d # r) =
     (if is_digit a \<and> is_digit b \<and> is_digit c \<and> is_digit d then [([a, b, c, d], r)] else [])"
| "re_Y s = []"

definition re_slash :: "string \<Rightarrow> string list" where
  "re_slash s = map snd (re_one (\<lambda>c. c = CHR ''/'') s)"

text \<open>The matches of the whole expression, in the matcher's order; it takes the first.\<close>

definition re_matches :: "string \<Rightarrow> ((string \<times> string \<times> string) \<times> string) list" where
  "re_matches s =
     concat (map (\<lambda>(m, r1).
       concat (map (\<lambda>r2.
         concat (map (\<lambda>(d, r3).
           concat (map (\<lambda>r4.
             map (\<lambda>(y, r5). ((m, d, y), r5)) (re_Y r4))
           (re_slash r3)))
         (re_d r2)))
       (re_slash r1)))
     (re_m s))"

text \<open>
  \<open>None\<close> is the \<open>ValueError\<close>: the string does not match the format, text is left
  after the match, or the three numbers are not a date (year 0, or a day the month
  does not have).
\<close>

definition strptime :: "string \<Rightarrow> date option" where
  "strptime s =
     (case re_matches s of
        [] \<Rightarrow> None
      | ((m, d, y), rest) # _ \<Rightarrow>
          if rest \<noteq> [] then None
          else
            let yy = to_int y; mm = to_int m; dd = to_int d in
            if yy < 1 \<or> days_in_month yy mm < dd then None
            else Some (yy, mm, dd))"

section \<open>The parsed page\<close>

text \<open>
  The markup parser is a library; the program works on the tree it returns. A node is
  a run of text or an element with its tag name and its children. The root of a parsed
  document is an element too.
\<close>

datatype node = Text string | Elem string "node list"

text \<open>\<open>tag.contents\<close>: the children.\<close>

fun contents :: "node \<Rightarrow> node list" where
  "contents (Text s) = []"
| "contents (Elem n kids) = kids"

text \<open>The nodes below a node, in document order.\<close>

fun descendants :: "node \<Rightarrow> node list" where
  "descendants (Text s) = []"
| "descendants (Elem n kids) = concat (map (\<lambda>k. k # descendants k) kids)"

fun is_tag :: "string \<Rightarrow> node \<Rightarrow> bool" where
  "is_tag name (Text s) = False"
| "is_tag name (Elem n kids) = (n = name)"

text \<open>\<open>tag.find_all(name)\<close> and \<open>tag.find(name)\<close>\<close>

definition find_all :: "string \<Rightarrow> node \<Rightarrow> node list" where
  "find_all name t = filter (is_tag name) (descendants t)"

definition find_tag :: "string \<Rightarrow> node \<Rightarrow> node option" where
  "find_tag name t = (case find_all name t of [] \<Rightarrow> None | x # _ \<Rightarrow> Some x)"

text \<open>
  \<open>tag.get_text(strip=True)\<close>: every run of text below the tag, stripped, the empty
  ones left out, joined with nothing between them.
\<close>

fun stripped_strings :: "node \<Rightarrow> string list" where
  "stripped_strings (Text s) = (if str_strip s = [] then [] else [str_strip s])"
| "stripped_strings (Elem n kids) = concat (map stripped_strings kids)"

definition get_text :: "node \<Rightarrow> string" where
  "get_text t = concat (stripped_strings t)"

text \<open>
  What a request gives the program: an exception (connection error, timeout, a status
  that \<open>raise_for_status\<close> refuses, an error of the parser) with its text, or the
  parsed page.
\<close>

datatype http_result = Raised string | Page node

section \<open>The fish-plant scraper\<close>

record plant =
  water :: string
  date :: date
  week :: string
  species :: string

record water_result =
  recent :: "plant option"
  upcoming :: "plant option"

text \<open>
  The loop over \<open>water_td.contents\<close>: text children are stripped and appended, the
  first \<open>a\<close> element ends the loop, any other element is passed over.
\<close>

fun water_name_loop :: "string \<Rightarrow> node list \<Rightarrow> string" where
  "water_name_loop water_name [] = water_name"
| "water_name_loop water_name (Text s # rest) = water_name_loop (water_name @ str_strip s) rest"
| "water_name_loop water_name (Elem n kids # rest) =
     (if n = ''a'' then water_name else water_name_loop water_name rest)"

definition start_str :: "string \<Rightarrow> string" where
  "start_str week_text =
     (if str_contains '' - '' week_text then split_head '' - '' week_text
      else split_head ''-'' week_text)"

text \<open>The body of the loop over the rows: the event of a row, \<open>None\<close> where the
  loop goes on to the next row without appending.\<close>

definition row_plant :: "string \<Rightarrow> node \<Rightarrow> plant option" where
  "row_plant county_input row =
     (let cols = find_all ''td'' row in
      if length cols < 4 then None
      else
        let water_name = str_strip (water_name_loop [] (contents (cols ! 1))) in
        if water_name = [] then None
        else
          let county_text = get_text (cols ! 2) in
          if \<not> str_contains (str_lower county_input) (str_lower county_text) then None
          else
            let week_text = get_text (cols ! 0);
                species_text = get_text (cols ! 3)
            in case strptime (str_strip (start_str week_text)) of
                 None \<Rightarrow> None
               | Some start_date \<Rightarrow>
                   Some \<lparr>water = water_name, date = start_date,
                         week = week_text, species = species_text\<rparr>)"

definition plants_of :: "string \<Rightarrow> node list \<Rightarrow> plant list" where
  "plants_of county_input rows = List.map_filter (row_plant county_input) rows"




text \<open>
  \<open>grouped[p['water']].append(p)\<close> on a \<open>defaultdict(list)\<close>, kept as the list of
  its items in insertion order.
\<close>

fun group_append :: "(string \<times> plant list) list \<Rightarrow> plant \<Rightarrow> (string \<times> plant list) list" where
  "group_append [] p = [(water p, [p])]"
| "group_append ((k, ps) # g) p =
     (if k = water p then (k, ps @ [p]) # g else (k, ps) # group_append g p)"

definition grouped_of :: "plant list \<Rightarrow> (string \<times> plant list) list" where
  "grouped_of plants = foldl group_append [] plants"

text \<open>One item of \<open>results\<close>: the entries sorted by date (a stable sort), the last
  one not after today, the first one after today.\<close>

definition result_item :: "date \<Rightarrow> string \<times> plant list \<Rightarrow> string \<times> water_result" where
  "result_item today item =
     (let entries = sort_key date (snd item) in
      (fst item,
       \<lparr>recent = List.find (\<lambda>e. date e \<le> today) (rev entries),
        upcoming = List.find (\<lambda>e. today < date e) entries\<rparr>))"

text \<open>
  The function returns a pair of the results and an error, one of them \<open>None\<close>:
  \<open>Inl\<close> is the error text, \<open>Inr\<close> the results, a dictionary kept as the list of
  its items in key order.
\<close>

definition get_fish_plants_for_county ::
  "http_result \<Rightarrow> date \<Rightarrow> string \<Rightarrow> string + (string \<times> water_result) list" where
  "get_fish_plants_for_county response today county_input =
     (case response of
        Raised e \<Rightarrow> Inl e
      | Page soup \<Rightarrow>
          (case find_tag ''table'' soup of
             None \<Rightarrow> Inl ''Fish planting table not found.''
           | Some table \<Rightarrow>
               let rows = drop 1 (find_all ''tr'' table);
                   plants = plants_of county_input rows
               in Inr (sort_key fst (map (result_item today) (grouped_of plants)))))"

text \<open>The list \<open>plants\<close> when the loop over the rows has ended: the events that
  survive it. There is none when the function returns an error.\<close>

definition surviving_events :: "http_result \<Rightarrow> string \<Rightarrow> plant list" where
  "surviving_events response county_input =
     (case response of
        Raised e \<Rightarrow> []
      | Page soup \<Rightarrow>
          (case find_tag ''table'' soup of
             None \<Rightarrow> []
           | Some table \<Rightarrow> plants_of county_input (drop 1 (find_all ''tr'' table))))"

text \<open>The entries of a key of \<open>grouped\<close>, none when the key is not there.\<close>

definition entries_of :: "(string \<times> plant list) list \<Rightarrow> string \<Rightarrow> plant list" where
  "entries_of g k = (case map_of g k of None \<Rightarrow> [] | Some ps \<Rightarrow> ps)"

section \<open>The county list\<close>

definition FALLBACK_COUNTIES :: "string list" where
  "FALLBACK_COUNTIES = [
      ''Alameda'', ''Alpine'', ''Amador'', ''Butte'', ''Calaveras'', ''Colusa'',
      ''Contra Costa'', ''Del Norte'', ''El Dorado'', ''Fresno'', ''Glenn'', ''Humboldt'',
      ''Imperial'', ''Inyo'', ''Kern'', ''Kings'', ''Lake'', ''Lassen'', ''Los Angeles'',
      ''Madera'', ''Marin'', ''Mariposa'', ''Mendocino'', ''Merced'', ''Modoc'', ''Mono'',
      ''Monterey'', ''Napa'', ''Nevada'', ''Orange'', ''Placer'', ''Plumas'', ''Riverside'',
      ''Sacramento'', ''San Benito'', ''San Bernardino'', ''San Diego'', ''San Francisco'',
      ''San Joaquin'', ''San Luis Obispo'', ''San Mateo'', ''Santa Barbara'',
      ''Santa Clara'', ''Santa Cruz'', ''Shasta'', ''Sierra'', ''Siskiyou'', ''Solano'',
      ''Sonoma'', ''Stanislaus'', ''Sutter'', ''Tehama'', ''Trinity'', ''Tulare'',
      ''Tuolumne'', ''Ventura'', ''Yolo'', ''Yuba'']"

text \<open>The two globals; times are in microseconds.\<close>

record counties_state =
  COUNTIES_CACHE :: "string list option"
  CACHE_TIME :: "int option"

text \<open>The test before the request: a cached list that is not empty, a cache time, and
  less than 3600 seconds between it and now.\<close>

definition cache_fresh :: "int \<Rightarrow> counties_state \<Rightarrow> bool" where
  "cache_fresh now st =
     (case (COUNTIES_CACHE st, CACHE_TIME st) of
        (Some cs, Some t) \<Rightarrow> cs \<noteq> [] \<and> now - t < 3600 * 1000000
      | _ \<Rightarrow> False)"

definition row_county :: "node \<Rightarrow> string list" where
  "row_county row =
     (let cols = find_all ''td'' row in
      if length cols \<ge> 3 then
        (let county_text = get_text (cols ! 2) in
         if county_text \<noteq> [] then [str_title county_text] else [])
      else [])"

definition get_counties_from_cdfw ::
  "int \<Rightarrow> http_result \<Rightarrow> counties_state \<Rightarrow> string list \<times> counties_state" where
  "get_counties_from_cdfw now response st =
     (if cache_fresh now st then (the (COUNTIES_CACHE st), st)
      else
        (case response of
           Raised e \<Rightarrow> (sort FALLBACK_COUNTIES, st)
         | Page soup \<Rightarrow>
             let counties = concat (map row_county (drop 1 (find_all ''tr'' soup)));
                 sorted_counties = sort (remdups counties)
             in (sorted_counties,
                 st\<lparr>COUNTIES_CACHE := Some sorted_counties, CACHE_TIME := Some now\<rparr>)))"

section \<open>The geocoder\<close>

text \<open>
  A latitude and a longitude. The program reads them as floats, from its table or from
  the service, and only stores them and passes them on; a float is modelled as the real
  number its decimal text denotes.
\<close>

type_synonym coords = "real \<times> real"

text \<open>
  What the geocoding request gives: an exception, or the decoded array, each element
  either the latitude and longitude it holds or \<open>None\<close> when reading them raises (a
  key is missing, a value is not a number).
\<close>

datatype geo_response = Geo_Raised | Geo_Data "coords option list"

text \<open>
  The dictionary \<open>GEOCODE_CACHE\<close>, whose values may be \<open>None\<close>, and the queries sent
  to the service so far, latest last.
\<close>

record geo_state =
  GEOCODE_CACHE :: "string \<rightharpoonup> coords option"
  sent :: "string list"

definition geocode_key :: "string \<Rightarrow> string \<Rightarrow> string" where
  "geocode_key water_name county = str_lower water_name @ ''|'' @ str_lower county"

definition geocode_query :: "string \<Rightarrow> string \<Rightarrow> string" where
  "geocode_query water_name county = water_name @ '', '' @ county @ '' County, California''"

definition geocode_water ::
  "(string \<Rightarrow> geo_response) \<Rightarrow> string \<Rightarrow> string \<Rightarrow> geo_state \<Rightarrow> coords option \<times> geo_state" where
  "geocode_water service water_name county st =
     (let key = geocode_key water_name county in
      case GEOCODE_CACHE st key of
        Some cached \<Rightarrow> (cached, st)
      | None \<Rightarrow>
          let query = geocode_query water_name county;
              st1 = st\<lparr>sent := sent st @ [query]\<rparr>
          in case service query of
               Geo_Data (Some c # _) \<Rightarrow> (Some c, st1\<lparr>GEOCODE_CACHE := (GEOCODE_CACHE st1)(key \<mapsto> Some c)\<rparr>)
             | _ \<Rightarrow> (None, st1\<lparr>GEOCODE_CACHE := (GEOCODE_CACHE st1)(key \<mapsto> None)\<rparr>))"

text \<open>The state after a sequence of calls, each with the service as it answers then.\<close>

fun geocode_calls ::
  "((string \<Rightarrow> geo_response) \<times> string \<times> string) list \<Rightarrow> geo_state \<Rightarrow> geo_state" where
  "geocode_calls [] st = st"
| "geocode_calls ((service, w, c) # calls) st = geocode_calls calls (snd (geocode_water service w c st))"

section \<open>The county seats\<close>

definition COUNTY_SEATS_items :: "(string \<times> coords) list" where
  "COUNTY_SEATS_items = [
      (''Alameda'', (37.7799, - 122.2827)),
      (''Alpine'', (38.5969, - 119.8210)),
      (''Amador'', (38.3477, - 120.7741)),
      (''Butte'', (39.7285, - 121.8375)),
      (''Calaveras'', (38.1960, - 120.6805)),
      (''Colusa'', (39.2143, - 122.0094)),
      (''Contra Costa'', (37.9735, - 122.0311)),
      (''Del Norte'', (41.7542, - 124.2006)),
      (''El Dorado'', (38.7296, - 120.7985)),
      (''Fresno'', (36.7378, - 119.7871)),
      (''Glenn'', (39.5200, - 122.1936)),
      (''Humboldt'', (40.8021, - 124.1637)),
      (''Imperial'', (32.8473, - 115.5694)),
      (''Inyo'', (36.6044, - 118.0625)),
      (''Kern'', (35.3733, - 118.9854)),
      (''Kings'', (36.0726, - 119.8154)),
      (''Lake'', (38.9444, - 122.6264)),
      (''Lassen'', (40.4163, - 120.6620)),
      (''Los Angeles'', (34.0522, - 118.2437)),
      (''Madera'', (36.9613, - 120.0607)),
      (''Marin'', (37.9358, - 122.5311)),
      (''Mariposa'', (37.4849, - 119.9663)),
      (''Mendocino'', (39.3077, - 123.7995)),
      (''Merced'', (37.3022, - 120.4830)),
      (''Modoc'', (41.4899, - 120.7243)),
      (''Mono'', (37.9399, - 118.8800)),
      (''Monterey'', (36.6002, - 121.8947)),
      (''Napa'', (38.2975, - 122.2869)),
      (''Nevada'', (39.2616, - 121.0180)),
      (''Orange'', (33.7878, - 117.8531)),
      (''Placer'', (39.0620, - 120.7229)),
      (''Plumas'', (39.9380, - 120.9033)),
      (''Riverside'', (33.9806, - 117.3755)),
      (''Sacramento'', (38.5816, - 121.4944)),
      (''San Benito'', (36.8454, - 121.3542)),
      (''San Bernardino'', (34.1083, - 117.2898)),
      (''San Diego'', (32.7157, - 117.1611)),
      (''San Francisco'', (37.7749, - 122.4194)),
      (''San Joaquin'', (37.9349, - 121.2730)),
      (''San Luis Obispo'', (35.2828, - 120.6596)),
      (''San Mateo'', (37.5630, - 122.3255)),
      (''Santa Barbara'', (34.4208, - 119.6982)),
      (''Santa Clara'', (37.3541, - 121.9552)),
      (''Santa Cruz'', (36.9741, - 122.0308)),
      (''Shasta'', (40.5865, - 122.3917)),
      (''Sierra'', (39.5920, - 120.3680)),
      (''Siskiyou'', (41.5900, - 122.6370)),
      (''Solano'', (38.2682, - 122.0390)),
      (''Sonoma'', (38.4404, - 122.7141)),
      (''Stanislaus'', (37.5585, - 120.9977)),
      (''Sutter'', (39.0646, - 121.6147)),
      (''Tehama'', (40.0240, - 122.2350)),
      (''Trinity'', (40.7359, - 122.9459)),
      (''Tulare'', (36.2072, - 118.8020)),
      (''Tuolumne'', (37.9625, - 120.2400)),
      (''Ventura'', (34.2805, - 119.2945)),
      (''Yolo'', (38.7585, - 121.7439)),
      (''Yuba'', (39.1371, - 121.5835))]"

definition COUNTY_SEATS :: "string \<rightharpoonup> coords" where
  "COUNTY_SEATS = map_of COUNTY_SEATS_items"

definition get_county_seat_coords :: "string \<Rightarrow> coords option" where
  "get_county_seat_coords county_name =
     (let clean = str_title (str_strip (str_replace '' County'' [] county_name))
      in COUNTY_SEATS clean)"

section \<open>The map view\<close>







section \<open>The specification's wording\<close>

text \<open>
  The normalisation of a county name as the specification words it, to be compared
  with \<open>get_county_seat_coords\<close>: a trailing \<open>County\<close> with its space is stripped,
  the result is trimmed and put in title case.
\<close>

definition endswith :: "string \<Rightarrow> string \<Rightarrow> bool" where
  "endswith s suffix = startswith (rev s) (rev suffix)"

definition spec_clean :: "string \<Rightarrow> string" where
  "spec_clean county_name =
     str_title (str_strip
       (if endswith county_name '' County''
        then take (length county_name - length '' County'') county_name
        else county_name))"



section \<open>Sample inputs\<close>

definition empty_geo :: geo_state where
  "empty_geo = \<lparr>GEOCODE_CACHE = Map.empty, sent = []\<rparr>"


text \<open>A page of the shape the source page has: one table, a header row, then one row
  for each event, with four cells.\<close>

definition td :: "string \<Rightarrow> node" where
  "td s = Elem ''td'' [Text s]"

definition header_row :: node where
  "header_row = Elem ''tr'' [Elem ''th'' [Text ''Week''], Elem ''th'' [Text ''Water''],
     Elem ''th'' [Text ''County''], Elem ''th'' [Text ''Species'']]"

definition plant_row :: "string \<Rightarrow> node list \<Rightarrow> string \<Rightarrow> string \<Rightarrow> node" where
  "plant_row week_text name county_text species_text =
     Elem ''tr'' [td week_text, Elem ''td'' name, td county_text, td species_text]"

definition page_of :: "node list \<Rightarrow> http_result" where
  "page_of rows = Page (Elem ''[document]'' [Elem ''table'' (header_row # rows)])"

definition tahoe :: "node list" where
  "tahoe = [Text ''Lake Tahoe'', Elem ''a'' [Text ''Map'']]"

definition shaver_row :: node where
  "shaver_row = plant_row ''06/01/2025-06/07/2025'' [Text ''Shaver Lake''] ''Fresno County'' ''Rainbow Trout''"

definition sample_rows :: "node list" where
  "sample_rows =
     [plant_row ''06/15/2025 - 06/21/2025'' tahoe ''El Dorado'' ''Rainbow Trout'',
      plant_row ''05/20/2025'' tahoe ''El Dorado'' ''Brown Trout'',
      plant_row ''06/01/2025 - 06/07/2025'' tahoe ''El Dorado'' ''Rainbow Trout'',
      shaver_row]"

definition sample_page :: http_result where
  "sample_page = page_of sample_rows"


definition linked_name_row :: node where
  "linked_name_row =
     plant_row ''06/01/2025 - 06/07/2025'' [Elem ''a'' [Text ''Lake Tahoe'']] ''El Dorado''
       ''Rainbow Trout''"

definition name_then_link_row :: "string \<Rightarrow> node" where
  "name_then_link_row link_text =
     plant_row ''06/01/2025 - 06/07/2025'' [Text ''Lake Tahoe'', Elem ''a'' [Text link_text]]
       ''El Dorado'' ''Rainbow Trout''"

definition tahoe_event :: "string \<Rightarrow> date \<Rightarrow> string \<Rightarrow> plant" where
  "tahoe_event week_text d species_text =
     \<lparr>water = ''Lake Tahoe'', date = d, week = week_text, species = species_text\<rparr>"

section \<open>The geocoder's cache\<close>

lemma geocode_water_hit:
  "GEOCODE_CACHE st (geocode_key w c) = Some v \<Longrightarrow> geocode_water service w c st = (v, st)"
  by (simp add: geocode_water_def)

lemma geocode_water_caches:
  "geocode_water service w c st = (r, st1) \<Longrightarrow> GEOCODE_CACHE st1 (geocode_key w c) = Some r"
  by (auto simp: geocode_water_def Let_def
      split: option.splits geo_response.splits list.splits)

lemma geocode_water_miss:
  assumes "GEOCODE_CACHE st (geocode_key w c) = None"
  shows "\<exists>r. geocode_water service w c st =
           (r, st\<lparr>sent := sent st @ [geocode_query w c],
                  GEOCODE_CACHE := (GEOCODE_CACHE st)(geocode_key w c \<mapsto> r)\<rparr>)"
  using assms
  by (simp add: geocode_water_def Let_def split: geo_response.split list.split option.split)

lemma geocode_water_keeps:
  assumes "GEOCODE_CACHE st k = Some v"
  shows "GEOCODE_CACHE (snd (geocode_water service w c st)) k = Some v"
proof (cases "GEOCODE_CACHE st (geocode_key w c)")
  case None
  then have "k \<noteq> geocode_key w c"
    using assms by auto
  moreover obtain r where "geocode_water service w c st =
           (r, st\<lparr>sent := sent st @ [geocode_query w c],
                  GEOCODE_CACHE := (GEOCODE_CACHE st)(geocode_key w c \<mapsto> r)\<rparr>)"
    using geocode_water_miss [OF None] by blast
  ultimately show ?thesis
    using assms by simp
next
  case (Some cached)
  then show ?thesis
    using assms by (simp add: geocode_water_def)
qed

lemma geocode_calls_keeps:
  "GEOCODE_CACHE st k = Some v \<Longrightarrow> GEOCODE_CACHE (geocode_calls calls st) k = Some v"
proof (induction calls arbitrary: st)
  case Nil
  then show ?case by simp
next
  case (Cons call calls)
  obtain service w c where call: "call = (service, w, c)"
    by (cases call) auto
  have "GEOCODE_CACHE (snd (geocode_water service w c st)) k = Some v"
    using Cons.prems by (rule geocode_water_keeps)
  then show ?case
    using Cons.IH call by simp
qed

lemma geocode_key_lower:
  "str_lower w' = str_lower w \<Longrightarrow> str_lower c' = str_lower c \<Longrightarrow> geocode_key w' c' = geocode_key w c"
  by (simp add: geocode_key_def)

text \<open>
  Claim C5. After a first call with a pair (water, county), whatever calls follow, a call
  with a pair that is the same up to case returns what the first call returned and
  leaves the state as it is: the cache is not written and no query is sent. The result
  \<open>r\<close> may be \<open>None\<close>, the cached negative marker.
\<close>

theorem geocode_cache_idempotent:
  assumes first: "geocode_water service w c st = (r, st1)"
    and later: "st2 = geocode_calls calls st1"
    and same_water: "str_lower w' = str_lower w"
    and same_county: "str_lower c' = str_lower c"
  shows "geocode_water service' w' c' st2 = (r, st2)"
proof -
  have "GEOCODE_CACHE st1 (geocode_key w c) = Some r"
    using first by (rule geocode_water_caches)
  then have "GEOCODE_CACHE st2 (geocode_key w c) = Some r"
    unfolding later by (rule geocode_calls_keeps)
  then have "GEOCODE_CACHE st2 (geocode_key w' c') = Some r"
    using geocode_key_lower [OF same_water same_county] by simp
  then show ?thesis
    by (rule geocode_water_hit)
qed

theorem geocode_cache_idempotent_witness:
  "geocode_water (\<lambda>q. Geo_Raised) ''Lake Tahoe'' ''El Dorado'' empty_geo =
     (None, \<lparr>GEOCODE_CACHE = [''lake tahoe|el dorado'' \<mapsto> None],
             sent = [''Lake Tahoe, El Dorado County, California'']\<rparr>) \<and>
   str_lower ''LAKE TAHOE'' = str_lower ''Lake Tahoe'' \<and>
   str_lower ''el dorado'' = str_lower ''El Dorado'' \<and>
   geocode_water (\<lambda>q. Geo_Data [Some (39, - 120)]) ''LAKE TAHOE'' ''el dorado''
     (geocode_calls [(\<lambda>q. Geo_Data [Some (1, 2)], ''Pinecrest Lake'', ''Tuolumne'')]
        \<lparr>GEOCODE_CACHE = [''lake tahoe|el dorado'' \<mapsto> None],
         sent = [''Lake Tahoe, El Dorado County, California'']\<rparr>) =
     (None,
      geocode_calls [(\<lambda>q. Geo_Data [Some (1, 2)], ''Pinecrest Lake'', ''Tuolumne'')]
        \<lparr>GEOCODE_CACHE = [''lake tahoe|el dorado'' \<mapsto> None],
         sent = [''Lake Tahoe, El Dorado County, California'']\<rparr>)"
proof -
  have key: "geocode_key ''Lake Tahoe'' ''El Dorado'' = ''lake tahoe|el dorado''"
    by code_simp
  have first: "geocode_water (\<lambda>q. Geo_Raised) ''Lake Tahoe'' ''El Dorado'' empty_geo =
     (None, \<lparr>GEOCODE_CACHE = [''lake tahoe|el dorado'' \<mapsto> None],
             sent = [''Lake Tahoe, El Dorado County, California'']\<rparr>)"
    by (simp add: geocode_water_def key empty_geo_def geocode_query_def)
  have l1: "str_lower ''LAKE TAHOE'' = str_lower ''Lake Tahoe''" by code_simp
  have l2: "str_lower ''el dorado'' = str_lower ''El Dorado''" by code_simp
  show ?thesis
    using first l1 l2 geocode_cache_idempotent [OF first refl l1 l2] by blast
qed

text \<open>
  Claim C10. The key is not injective: the distinct pairs (\<open>a|b\<close>, \<open>c\<close>) and
  (\<open>a\<close>, \<open>b|c\<close>) have the same key, so a call with the second after a call with the
  first returns the first call's result and sends nothing.
\<close>

theorem geocode_key_not_injective:
  "(''a|b'', ''c'') \<noteq> (''a'', ''b|c'') \<and>
   geocode_key ''a|b'' ''c'' = geocode_key ''a'' ''b|c'' \<and>
   geocode_water service2 ''a'' ''b|c'' (snd (geocode_water service1 ''a|b'' ''c'' st)) =
     geocode_water service1 ''a|b'' ''c'' st"
proof -
  have k: "geocode_key ''a'' ''b|c'' = geocode_key ''a|b'' ''c''"
    by code_simp
  obtain r st1 where first: "geocode_water service1 ''a|b'' ''c'' st = (r, st1)"
    by (cases "geocode_water service1 ''a|b'' ''c'' st") auto
  have "GEOCODE_CACHE st1 (geocode_key ''a'' ''b|c'') = Some r"
    using geocode_water_caches [OF first] k by simp
  then have "geocode_water service2 ''a'' ''b|c'' st1 = (r, st1)"
    by (rule geocode_water_hit)
  then show ?thesis
    using first k by simp
qed

theorem geocode_key_not_injective_witness:
  "geocode_water (\<lambda>q. Geo_Data [Some (39, - 120)]) ''a'' ''b|c''
     (snd (geocode_water (\<lambda>q. Geo_Raised) ''a|b'' ''c'' empty_geo)) =
   geocode_water (\<lambda>q. Geo_Raised) ''a|b'' ''c'' empty_geo \<and>
   fst (geocode_water (\<lambda>q. Geo_Raised) ''a|b'' ''c'' empty_geo) = None \<and>
   sent (snd (geocode_water (\<lambda>q. Geo_Raised) ''a|b'' ''c'' empty_geo)) = [''a|b, c County, California'']"
proof -
  have key: "geocode_key ''a|b'' ''c'' = ''a|b|c''"
    by code_simp
  have "fst (geocode_water (\<lambda>q. Geo_Raised) ''a|b'' ''c'' empty_geo) = None"
    and "sent (snd (geocode_water (\<lambda>q. Geo_Raised) ''a|b'' ''c'' empty_geo)) = [''a|b, c County, California'']"
    by (simp_all add: geocode_water_def key empty_geo_def geocode_query_def)
  then show ?thesis
    using geocode_key_not_injective [of "\<lambda>q. Geo_Data [Some (39, - 120)]" "\<lambda>q. Geo_Raised" empty_geo]
    by blast
qed

section \<open>Facts about the strings\<close>

lemma startswith_iff: "startswith s p \<longleftrightarrow> (\<exists>r. s = p @ r)"
  by (induction s p rule: startswith.induct) auto


lemma str_replace_absent:
  "\<not> str_contains old s \<Longrightarrow> str_replace old new s = s"
proof (induction s)
  case Nil
  then show ?case by (simp add: str_replace.simps)
next
  case (Cons c cs)
  then have "\<not> startswith (c # cs) old" and "str_replace old new cs = cs"
    by auto
  then show ?case
    by (simp add: str_replace.simps [of old new "c # cs"])
qed

lemma startswith_append_long:
  "length p \<le> length a \<Longrightarrow> startswith (a @ r) p = startswith a p"
  by (induction a p rule: startswith.induct) auto

lemma startswith_append_short:
  "length a < length p \<Longrightarrow> startswith (a @ r) p \<Longrightarrow> startswith r (drop (length a) p)"
  by (induction a p rule: startswith.induct) auto

lemma County_no_overlap:
  assumes "startswith (a @ '' County'' @ b) '' County''" and "a \<noteq> []"
  shows "startswith a '' County''"
proof (cases "length '' County'' \<le> length a")
  case True
  then show ?thesis
    using assms(1) startswith_append_long by blast
next
  case False
  then have short: "length a < length '' County''"
    by simp
  have tail: "startswith ('' County'' @ b) (drop (length a) '' County'')"
    using startswith_append_short [OF short assms(1)] .
  have "0 < length a"
    using assms(2) by simp
  moreover have "length a < 7"
    using short by simp
  ultimately have "length a = 1 \<or> length a = 2 \<or> length a = 3 \<or> length a = 4 \<or> length a = 5 \<or> length a = 6"
    by arith
  then have False
    using tail by (elim disjE) simp_all
  then show ?thesis ..
qed

lemma str_replace_step:
  "old \<noteq> [] \<Longrightarrow> \<not> startswith (c # cs) old \<Longrightarrow>
   str_replace old new (c # cs) = c # str_replace old new cs"
  by (subst str_replace.simps) simp

lemma str_replace_hit:
  assumes "old \<noteq> []"
  shows "str_replace old new (old @ b) = new @ str_replace old new b"
proof -
  have "startswith (old @ b) old"
    by (auto simp: startswith_iff)
  moreover have "old @ b \<noteq> []"
    using assms by simp
  ultimately show ?thesis
    using assms by (subst str_replace.simps) simp
qed

lemma str_replace_County:
  "\<not> str_contains '' County'' a \<Longrightarrow>
   str_replace '' County'' new (a @ '' County'' @ b) = a @ new @ str_replace '' County'' new b"
proof (induction a)
  case Nil
  show ?case
    using str_replace_hit [of "'' County''" new b] by simp
next
  case (Cons c cs)
  have "\<not> startswith (c # cs) '' County''" and rest: "\<not> str_contains '' County'' cs"
    using Cons.prems by auto
  then have "\<not> startswith ((c # cs) @ '' County'' @ b) '' County''"
    using County_no_overlap [of "c # cs" b] by blast
  then have no_hit: "\<not> startswith (c # (cs @ '' County'' @ b)) '' County''"
    by simp
  have not_empty: "'' County'' \<noteq> []"
    by simp
  have "str_replace '' County'' new (c # (cs @ '' County'' @ b)) =
             c # str_replace '' County'' new (cs @ '' County'' @ b)"
    using str_replace_step [OF not_empty no_hit] .
  then show ?case
    using Cons.IH [OF rest] by simp
qed

section \<open>The tables\<close>




lemma seat_keys: "map fst COUNTY_SEATS_items = FALLBACK_COUNTIES"
  unfolding FALLBACK_COUNTIES_def COUNTY_SEATS_items_def by simp



lemma seat_keys_distinct: "distinct (map fst COUNTY_SEATS_items)"
  unfolding COUNTY_SEATS_items_def by code_simp

lemma seat_count: "length COUNTY_SEATS_items = 58"
  unfolding COUNTY_SEATS_items_def by simp

lemma san_diego_seat: "COUNTY_SEATS ''San Diego'' = Some (32.7157, - 117.1611)"
  by (simp add: COUNTY_SEATS_def COUNTY_SEATS_items_def)

section \<open>The county list on a failed refresh\<close>

text \<open>
  A page the parser accepts is no failure, whatever is in it: with no row of three cells
  the list is empty, and it is cached.
\<close>

lemma counties_from_page_without_rows:
  assumes "\<not> cache_fresh now st"
  shows "get_counties_from_cdfw now (Page (Elem ''[document]'' [Text junk])) st =
           ([], st\<lparr>COUNTIES_CACHE := Some [], CACHE_TIME := Some now\<rparr>)"
  using assms by (simp add: get_counties_from_cdfw_def find_all_def)



section \<open>The county seat\<close>

text \<open>
  Claim C4, as the specification states it, fails: the program removes \<open>County\<close> with
  its space wherever it occurs, not only at the end. For the input
  \<open>San County Diego\<close> the specification's normalisation leaves the name as it is,
  which is no key of the table, while the program looks up \<open>San Diego\<close> and finds it.
\<close>

theorem county_seat_trailing_only_counterexample:
  "spec_clean ''San County Diego'' = ''San County Diego'' \<and>
   COUNTY_SEATS (spec_clean ''San County Diego'') = None \<and>
   get_county_seat_coords ''San County Diego'' = Some (32.7157, - 117.1611)"
proof -
  have spec: "spec_clean ''San County Diego'' = ''San County Diego''"
    by code_simp
  have "COUNTY_SEATS ''San County Diego'' = None"
    by (simp add: COUNTY_SEATS_def COUNTY_SEATS_items_def)
  moreover have "str_title (str_strip (str_replace '' County'' [] ''San County Diego'')) = ''San Diego''"
    by code_simp
  ultimately show ?thesis
    by (simp add: spec get_county_seat_coords_def san_diego_seat)
qed

text \<open>
  Claim C4, amended. The result is absent exactly when the name, with every occurrence
  of \<open>County\<close> and its space removed, then trimmed and put in title case, is not one
  of the 58 distinct keys of the table. A name without an occurrence is only trimmed and
  put in title case; an occurrence is removed wherever it stands, the text after it
  treated the same way.
\<close>

theorem county_seat_every_County_removed:
  "(get_county_seat_coords s = None \<longleftrightarrow>
      str_title (str_strip (str_replace '' County'' [] s)) \<notin> set (map fst COUNTY_SEATS_items)) \<and>
   length COUNTY_SEATS_items = 58 \<and> distinct (map fst COUNTY_SEATS_items) \<and>
   (\<not> str_contains '' County'' s \<longrightarrow>
      get_county_seat_coords s = COUNTY_SEATS (str_title (str_strip s))) \<and>
   (\<not> str_contains '' County'' a \<longrightarrow>
      get_county_seat_coords (a @ '' County'' @ b) =
        COUNTY_SEATS (str_title (str_strip (a @ str_replace '' County'' [] b))))"
proof -
  have "get_county_seat_coords s = None \<longleftrightarrow>
      str_title (str_strip (str_replace '' County'' [] s)) \<notin> set (map fst COUNTY_SEATS_items)"
    by (simp add: get_county_seat_coords_def COUNTY_SEATS_def map_of_eq_None_iff)
  moreover have "get_county_seat_coords s = COUNTY_SEATS (str_title (str_strip s))"
    if "\<not> str_contains '' County'' s"
    using that by (simp add: get_county_seat_coords_def str_replace_absent)
  moreover have "get_county_seat_coords (a @ '' County'' @ b) =
        COUNTY_SEATS (str_title (str_strip (a @ str_replace '' County'' [] b)))"
    if "\<not> str_contains '' County'' a"
    using str_replace_County [OF that, of "[]" b] by (simp add: get_county_seat_coords_def)
  ultimately show ?thesis
    using seat_count seat_keys_distinct by blast
qed

theorem county_seat_every_County_removed_witness:
  "\<not> str_contains '' County'' ''San'' \<and>
   get_county_seat_coords (''San'' @ '' County'' @ '' Diego'') = Some (32.7157, - 117.1611) \<and>
   \<not> str_contains '' County'' ''Kern'' \<and>
   get_county_seat_coords ''Kern'' = Some (35.3733, - 118.9854)"
proof -
  have absent: "\<not> str_contains '' County'' ''San''"
    by code_simp
  have absent': "\<not> str_contains '' County'' ''Kern''"
    by code_simp
  have clean: "str_title (str_strip (''San'' @ str_replace '' County'' [] '' Diego'')) = ''San Diego''"
    by code_simp
  have clean': "str_title (str_strip ''Kern'') = ''Kern''"
    by code_simp
  have kern: "COUNTY_SEATS ''Kern'' = Some (35.3733, - 118.9854)"
    by (simp add: COUNTY_SEATS_def COUNTY_SEATS_items_def)
  show ?thesis
    using absent absent' county_seat_every_County_removed [of "''Kern''" "''San''" "'' Diego''"]
    by (simp only: clean clean' san_diego_seat kern) blast
qed

section \<open>The map view\<close>



section \<open>Grouping by water\<close>

lemma map_of_group_append:
  "map_of (group_append g p) = (map_of g)(water p \<mapsto> entries_of g (water p) @ [p])"
  by (induction g p rule: group_append.induct) (auto simp: entries_of_def)

lemma keys_group_append:
  "map fst (group_append g p) =
     (if water p \<in> set (map fst g) then map fst g else map fst g @ [water p])"
  by (induction g p rule: group_append.induct) auto

lemma distinct_group_append:
  "distinct (map fst g) \<Longrightarrow> distinct (map fst (group_append g p))"
  by (simp add: keys_group_append)

lemma distinct_foldl_group:
  "distinct (map fst g) \<Longrightarrow> distinct (map fst (foldl group_append g plants))"
  by (induction plants arbitrary: g) (simp_all add: distinct_group_append)

lemma map_of_foldl_group:
  "map_of (foldl group_append g plants) k =
     (if map_of g k = None \<and> filter (\<lambda>p. water p = k) plants = [] then None
      else Some (entries_of g k @ filter (\<lambda>p. water p = k) plants))"
proof (induction plants arbitrary: g)
  case Nil
  then show ?case
    by (auto simp: entries_of_def)
next
  case (Cons p plants)
  show ?case
    by (simp add: Cons.IH map_of_group_append entries_of_def)
qed

lemma grouped_of_entry:
  assumes "(k, ps) \<in> set (grouped_of plants)"
  shows "ps = filter (\<lambda>p. water p = k) plants \<and> ps \<noteq> []"
proof -
  have "distinct (map fst (grouped_of plants))"
    unfolding grouped_of_def by (rule distinct_foldl_group) simp
  then have "map_of (grouped_of plants) k = Some ps"
    using assms by simp
  then show ?thesis
    unfolding grouped_of_def
    by (simp add: map_of_foldl_group entries_of_def split: if_splits)
qed

lemma grouped_of_keys:
  "fst ` set (grouped_of plants) = water ` set plants"
proof -
  have "k \<in> fst ` set (grouped_of plants) \<longleftrightarrow> k \<in> water ` set plants" for k
  proof -
    have "k \<in> fst ` set (grouped_of plants) \<longleftrightarrow> map_of (grouped_of plants) k \<noteq> None"
      by (simp add: map_of_eq_None_iff)
    also have "\<dots> \<longleftrightarrow> filter (\<lambda>p. water p = k) plants \<noteq> []"
      unfolding grouped_of_def by (simp add: map_of_foldl_group)
    also have "\<dots> \<longleftrightarrow> k \<in> water ` set plants"
      by (auto simp: filter_empty_conv)
    finally show ?thesis .
  qed
  then show ?thesis by blast
qed

lemma find_latest:
  fixes f :: "'a \<Rightarrow> 'b::linorder"
  assumes "sorted_wrt (\<lambda>a b. f b \<le> f a) xs" and "List.find (\<lambda>e. f e \<le> t) xs = Some r"
  shows "\<forall>e\<in>set xs. f e \<le> t \<longrightarrow> f e \<le> f r"
  using assms
proof (induction xs)
  case Nil
  then show ?case by simp
next
  case (Cons x xs)
  show ?case
  proof (cases "f x \<le> t")
    case True
    then have "r = x"
      using Cons.prems(2) by simp
    then show ?thesis
      using Cons.prems(1) by auto
  next
    case False
    then have "List.find (\<lambda>e. f e \<le> t) xs = Some r"
      using Cons.prems(2) by simp
    then have "\<forall>e\<in>set xs. f e \<le> t \<longrightarrow> f e \<le> f r"
      using Cons.IH Cons.prems(1) by simp
    then show ?thesis
      using False by simp
  qed
qed

lemma find_earliest:
  fixes f :: "'a \<Rightarrow> 'b::linorder"
  assumes "sorted_wrt (\<lambda>a b. f a \<le> f b) xs" and "List.find (\<lambda>e. t < f e) xs = Some r"
  shows "\<forall>e\<in>set xs. t < f e \<longrightarrow> f r \<le> f e"
  using assms
proof (induction xs)
  case Nil
  then show ?case by simp
next
  case (Cons x xs)
  show ?case
  proof (cases "t < f x")
    case True
    then have "r = x"
      using Cons.prems(2) by simp
    then show ?thesis
      using Cons.prems(1) by auto
  next
    case False
    then have "List.find (\<lambda>e. t < f e) xs = Some r"
      using Cons.prems(2) by simp
    then have "\<forall>e\<in>set xs. t < f e \<longrightarrow> f r \<le> f e"
      using Cons.IH Cons.prems(1) by simp
    then show ?thesis
      using False by simp
  qed
qed

lemma find_in_set: "List.find P xs = Some r \<Longrightarrow> r \<in> set xs \<and> P r"
  by (induction xs) (auto split: if_splits)

section \<open>The recent and the upcoming event\<close>

lemma results_shape:
  assumes "get_fish_plants_for_county response today q = Inr results"
  shows "results = sort_key fst (map (result_item today) (grouped_of (surviving_events response q)))"
  using assms
  by (auto simp: get_fish_plants_for_county_def surviving_events_def Let_def
      split: http_result.splits option.splits)

lemma result_entry:
  assumes "get_fish_plants_for_county response today q = Inr results"
    and "(w, wr) \<in> set results"
  shows "\<exists>ps. ps = filter (\<lambda>e. water e = w) (surviving_events response q) \<and> ps \<noteq> [] \<and>
           recent wr = List.find (\<lambda>e. date e \<le> today) (rev (sort_key date ps)) \<and>
           upcoming wr = List.find (\<lambda>e. today < date e) (sort_key date ps)"
proof -
  have "(w, wr) \<in> result_item today ` set (grouped_of (surviving_events response q))"
    using assms results_shape by fastforce
  then obtain k ps where item: "(k, ps) \<in> set (grouped_of (surviving_events response q))"
    and eq: "(w, wr) = result_item today (k, ps)"
    by auto
  have "w = k"
    and "recent wr = List.find (\<lambda>e. date e \<le> today) (rev (sort_key date ps))"
    and "upcoming wr = List.find (\<lambda>e. today < date e) (sort_key date ps)"
    using eq by (simp_all add: result_item_def Let_def)
  then show ?thesis
    using grouped_of_entry [OF item] by auto
qed

lemma distinct_sort_key_map:
  fixes f :: "'a \<Rightarrow> 'b::linorder"
  shows "distinct (map f xs) \<Longrightarrow> distinct (map f (sort_key f xs))"
  by (simp add: distinct_map)

lemma result_keys_distinct:
  assumes "get_fish_plants_for_county response today q = Inr results"
  shows "distinct (map fst results) \<and> sorted (map fst results) \<and>
         fst ` set results = water ` set (surviving_events response q)"
proof -
  let ?g = "grouped_of (surviving_events response q)"
  have shape: "results = sort_key fst (map (result_item today) ?g)"
    using assms by (rule results_shape)
  have keys: "map fst (map (result_item today) ?g) = map fst ?g"
    by (simp add: result_item_def Let_def)
  have "distinct (map fst ?g)"
    unfolding grouped_of_def by (rule distinct_foldl_group) simp
  then have "distinct (map fst (map (result_item today) ?g))"
    by (simp only: keys)
  then have "distinct (map fst results)"
    unfolding shape by (rule distinct_sort_key_map)
  moreover have "sorted (map fst results)"
    unfolding shape by (rule sorted_sort_key)
  moreover have "fst ` set results = fst ` set ?g"
    unfolding shape using keys by (metis image_set set_sort)
  ultimately show ?thesis
    using grouped_of_keys by simp
qed

lemma recent_spec:
  fixes ps :: "plant list"
  shows "case List.find (\<lambda>e. date e \<le> today) (rev (sort_key date ps)) of
           None \<Rightarrow> \<forall>e\<in>set ps. today < date e
         | Some r \<Rightarrow> r \<in> set ps \<and> date r \<le> today \<and>
                     (\<forall>e\<in>set ps. date e \<le> today \<longrightarrow> date e \<le> date r)"
proof (cases "List.find (\<lambda>e. date e \<le> today) (rev (sort_key date ps))")
  case None
  then have "\<forall>e\<in>set ps. today < date e"
    by (auto simp: find_None_iff)
  then show ?thesis
    by (simp only: None option.case)
next
  case (Some r)
  have "sorted (map date (sort_key date ps))"
    by (rule sorted_sort_key)
  then have "sorted_wrt (\<lambda>a b. date b \<le> date a) (rev (sort_key date ps))"
    by (simp add: sorted_map sorted_wrt_rev)
  then have "\<forall>e\<in>set (rev (sort_key date ps)). date e \<le> today \<longrightarrow> date e \<le> date r"
    using Some by (rule find_latest)
  moreover have "r \<in> set (rev (sort_key date ps)) \<and> date r \<le> today"
    using Some by (rule find_in_set)
  ultimately show ?thesis
    using Some by simp
qed

lemma upcoming_spec:
  fixes ps :: "plant list"
  shows "case List.find (\<lambda>e. today < date e) (sort_key date ps) of
           None \<Rightarrow> \<forall>e\<in>set ps. date e \<le> today
         | Some u \<Rightarrow> u \<in> set ps \<and> today < date u \<and>
                     (\<forall>e\<in>set ps. today < date e \<longrightarrow> date u \<le> date e)"
proof (cases "List.find (\<lambda>e. today < date e) (sort_key date ps)")
  case None
  then have "\<forall>e\<in>set ps. date e \<le> today"
    by (auto simp: find_None_iff)
  then show ?thesis
    by (simp only: None option.case)
next
  case (Some u)
  have "sorted (map date (sort_key date ps))"
    by (rule sorted_sort_key)
  then have "sorted_wrt (\<lambda>a b. date a \<le> date b) (sort_key date ps)"
    by (simp add: sorted_map)
  then have "\<forall>e\<in>set (sort_key date ps). today < date e \<longrightarrow> date u \<le> date e"
    using Some by (rule find_earliest)
  moreover have "u \<in> set (sort_key date ps) \<and> today < date u"
    using Some by (rule find_in_set)
  ultimately show ?thesis
    using Some by simp
qed

lemma not_both_absent:
  assumes "get_fish_plants_for_county response today q = Inr results"
    and "(w, wr) \<in> set results"
  shows "\<not> (recent wr = None \<and> upcoming wr = None)"
proof
  assume both: "recent wr = None \<and> upcoming wr = None"
  obtain ps where ps: "ps \<noteq> []"
    and r: "recent wr = List.find (\<lambda>e. date e \<le> today) (rev (sort_key date ps))"
    and u: "upcoming wr = List.find (\<lambda>e. today < date e) (sort_key date ps)"
    using result_entry [OF assms] by blast
  obtain e where e: "e \<in> set ps"
    using ps by (cases ps) auto
  have "\<forall>e\<in>set ps. today < date e"
    using recent_spec [where today = today and ps = ps] both r by simp
  moreover have "\<forall>e\<in>set ps. date e \<le> today"
    using upcoming_spec [where today = today and ps = ps] both u by simp
  ultimately show False
    using e by fastforce
qed

lemma sample_events:
  "surviving_events sample_page ''El Dorado'' =
     [tahoe_event ''06/15/2025 - 06/21/2025'' (2025, 6, 15) ''Rainbow Trout'',
      tahoe_event ''05/20/2025'' (2025, 5, 20) ''Brown Trout'',
      tahoe_event ''06/01/2025 - 06/07/2025'' (2025, 6, 1) ''Rainbow Trout'']"
  by code_simp

lemma sample_results:
  "get_fish_plants_for_county sample_page (2025, 6, 5) ''El Dorado'' =
     Inr [(''Lake Tahoe'',
           \<lparr>recent = Some (tahoe_event ''06/01/2025 - 06/07/2025'' (2025, 6, 1) ''Rainbow Trout''),
            upcoming = Some (tahoe_event ''06/15/2025 - 06/21/2025'' (2025, 6, 15) ''Rainbow Trout'')\<rparr>)]"
  by code_simp

lemma sample_results_later:
  "get_fish_plants_for_county sample_page (2025, 7, 1) ''El Dorado'' =
     Inr [(''Lake Tahoe'',
           \<lparr>recent = Some (tahoe_event ''06/15/2025 - 06/21/2025'' (2025, 6, 15) ''Rainbow Trout''),
            upcoming = None\<rparr>)]"
  by code_simp

text \<open>
  Claim C1. When the scraper returns results, their keys are distinct and are the
  waters of the surviving events. For each key, with the surviving events of that water:
  \<open>recent\<close> is one of them dated today or before, and no such event is later; it is
  absent only when every event is after today. \<open>upcoming\<close> is one of them dated after
  today, and no such event is earlier; it is absent only when no event is after today.
\<close>

theorem recent_is_latest_upcoming_is_earliest:
  assumes "get_fish_plants_for_county response today county_input = Inr results"
    and "(w, wr) \<in> set results"
    and "events = filter (\<lambda>e. water e = w) (surviving_events response county_input)"
  shows "distinct (map fst results) \<and>
         fst ` set results = water ` set (surviving_events response county_input) \<and>
         (case recent wr of
            None \<Rightarrow> \<forall>e\<in>set events. today < date e
          | Some r \<Rightarrow> r \<in> set events \<and> date r \<le> today \<and>
                      (\<forall>e\<in>set events. date e \<le> today \<longrightarrow> date e \<le> date r)) \<and>
         (case upcoming wr of
            None \<Rightarrow> \<forall>e\<in>set events. date e \<le> today
          | Some u \<Rightarrow> u \<in> set events \<and> today < date u \<and>
                      (\<forall>e\<in>set events. today < date e \<longrightarrow> date u \<le> date e))"
proof -
  have r: "recent wr = List.find (\<lambda>e. date e \<le> today) (rev (sort_key date events))"
    and u: "upcoming wr = List.find (\<lambda>e. today < date e) (sort_key date events)"
    using result_entry [OF assms(1,2)] assms(3) by auto
  show ?thesis
    using result_keys_distinct [OF assms(1)] recent_spec [where today = today and ps = events]
      upcoming_spec [where today = today and ps = events]
    by (simp only: r u)
qed

theorem recent_is_latest_upcoming_is_earliest_witness:
  "get_fish_plants_for_county sample_page (2025, 6, 5) ''El Dorado'' =
     Inr [(''Lake Tahoe'',
           \<lparr>recent = Some (tahoe_event ''06/01/2025 - 06/07/2025'' (2025, 6, 1) ''Rainbow Trout''),
            upcoming = Some (tahoe_event ''06/15/2025 - 06/21/2025'' (2025, 6, 15) ''Rainbow Trout'')\<rparr>)] \<and>
   tahoe_event ''05/20/2025'' (2025, 5, 20) ''Brown Trout''
     \<in> set (filter (\<lambda>e. water e = ''Lake Tahoe'') (surviving_events sample_page ''El Dorado'')) \<and>
   date (tahoe_event ''05/20/2025'' (2025, 5, 20) ''Brown Trout'') \<le> (2025, 6, 5) \<and>
   date (tahoe_event ''05/20/2025'' (2025, 5, 20) ''Brown Trout'')
     \<le> date (tahoe_event ''06/01/2025 - 06/07/2025'' (2025, 6, 1) ''Rainbow Trout'')"
proof -
  let ?old = "tahoe_event ''05/20/2025'' (2025, 5, 20) ''Brown Trout''"
  let ?wr = "\<lparr>recent = Some (tahoe_event ''06/01/2025 - 06/07/2025'' (2025, 6, 1) ''Rainbow Trout''),
            upcoming = Some (tahoe_event ''06/15/2025 - 06/21/2025'' (2025, 6, 15) ''Rainbow Trout'')\<rparr>"
  let ?events = "filter (\<lambda>e. water e = ''Lake Tahoe'') (surviving_events sample_page ''El Dorado'')"
  have member: "(''Lake Tahoe'', ?wr) \<in> set [(''Lake Tahoe'', ?wr)]"
    by simp
  have old: "?old \<in> set ?events"
    by (simp add: sample_events tahoe_event_def)
  have past: "date ?old \<le> (2025, 6, 5)"
    by (simp add: tahoe_event_def)
  have "\<forall>e\<in>set ?events. date e \<le> (2025, 6, 5) \<longrightarrow>
          date e \<le> date (tahoe_event ''06/01/2025 - 06/07/2025'' (2025, 6, 1) ''Rainbow Trout'')"
    using recent_is_latest_upcoming_is_earliest [OF sample_results member refl]
    by simp
  then show ?thesis
    using sample_results old past by blast
qed

text \<open>
  Claim C3, as the specification states it, fails: no query and no page give a key of
  the results with both \<open>recent\<close> and \<open>upcoming\<close> absent. A key has at least one
  event, and the date of an event is either after today or not.
\<close>

theorem both_absent_counterexample:
  "\<not> (\<exists>response today county_input results w wr.
        get_fish_plants_for_county response today county_input = Inr results \<and>
        (w, wr) \<in> set results \<and> recent wr = None \<and> upcoming wr = None)"
  using not_both_absent by blast

text \<open>
  Claim C3, amended. Every water that is a key of the results has \<open>recent\<close> or
  \<open>upcoming\<close> present.
\<close>

theorem some_event_always_present:
  assumes "get_fish_plants_for_county response today county_input = Inr results"
    and "(w, wr) \<in> set results"
  shows "(\<exists>r. recent wr = Some r) \<or> (\<exists>u. upcoming wr = Some u)"
  using not_both_absent [OF assms] by auto

theorem some_event_always_present_witness:
  "get_fish_plants_for_county sample_page (2025, 7, 1) ''El Dorado'' =
     Inr [(''Lake Tahoe'',
           \<lparr>recent = Some (tahoe_event ''06/15/2025 - 06/21/2025'' (2025, 6, 15) ''Rainbow Trout''),
            upcoming = None\<rparr>)] \<and>
   ((\<exists>r. recent \<lparr>recent = Some (tahoe_event ''06/15/2025 - 06/21/2025'' (2025, 6, 15) ''Rainbow Trout''),
            upcoming = None\<rparr> = Some r) \<or>
    (\<exists>u. upcoming \<lparr>recent = Some (tahoe_event ''06/15/2025 - 06/21/2025'' (2025, 6, 15) ''Rainbow Trout''),
            upcoming = None\<rparr> = Some u))"
proof -
  let ?wr = "\<lparr>recent = Some (tahoe_event ''06/15/2025 - 06/21/2025'' (2025, 6, 15) ''Rainbow Trout''),
            upcoming = None\<rparr>"
  have member: "(''Lake Tahoe'', ?wr) \<in> set [(''Lake Tahoe'', ?wr)]"
    by simp
  show ?thesis
    using sample_results_later some_event_always_present [OF sample_results_later member]
    by blast
qed

section \<open>Parsing the start date\<close>








































lemma name_then_link_cols:
  "find_all ''td'' (name_then_link_row link_text) =
     [td ''06/01/2025 - 06/07/2025'', Elem ''td'' [Text ''Lake Tahoe'', Elem ''a'' [Text link_text]],
      td ''El Dorado'', td ''Rainbow Trout'']"
  by (simp add: name_then_link_row_def plant_row_def td_def find_all_def)

lemma row_plant_cols:
  assumes "find_all ''td'' row = [c0, c1, c2, c3]"
  shows "row_plant q row =
     (if str_strip (water_name_loop [] (contents c1)) = [] then None
      else if \<not> str_contains (str_lower q) (str_lower (get_text c2)) then None
      else case strptime (str_strip (start_str (get_text c0))) of
             None \<Rightarrow> None
           | Some d \<Rightarrow>
               Some \<lparr>water = str_strip (water_name_loop [] (contents c1)), date = d,
                     week = get_text c0, species = get_text c3\<rparr>)"
  by (simp add: row_plant_def assms Let_def)

lemma name_then_link_plant:
  "row_plant ''El Dorado'' (name_then_link_row link_text) =
     Some (tahoe_event ''06/01/2025 - 06/07/2025'' (2025, 6, 1) ''Rainbow Trout'')"
proof -
  have name: "str_strip (water_name_loop []
      (contents (Elem ''td'' [Text ''Lake Tahoe'', Elem ''a'' [Text link_text]]))) = ''Lake Tahoe''"
    by code_simp
  have not_empty: "''Lake Tahoe'' \<noteq> []"
    by simp
  have county: "str_contains (str_lower ''El Dorado'') (str_lower (get_text (td ''El Dorado'')))"
    by code_simp
  have week_text: "get_text (td ''06/01/2025 - 06/07/2025'') = ''06/01/2025 - 06/07/2025''"
    by code_simp
  have parsed: "strptime (str_strip (start_str ''06/01/2025 - 06/07/2025'')) = Some (2025, 6, 1)"
    by code_simp
  have kind: "get_text (td ''Rainbow Trout'') = ''Rainbow Trout''"
    by code_simp
  show ?thesis
    unfolding row_plant_cols [OF name_then_link_cols] tahoe_event_def
    by (simp only: name not_empty county week_text parsed kind if_False not_True_eq_False
        option.case)
qed

lemma page_rows:
  "find_tag ''table'' (Elem ''[document]'' [Elem ''table'' (header_row # [name_then_link_row link_text])]) =
     Some (Elem ''table'' (header_row # [name_then_link_row link_text]))"
  by (simp add: find_tag_def find_all_def)

lemma table_rows:
  "drop 1 (find_all ''tr'' (Elem ''table'' (header_row # [name_then_link_row link_text]))) =
     [name_then_link_row link_text]"
  by (simp add: find_all_def header_row_def name_then_link_row_def plant_row_def td_def)



section \<open>The water name\<close>

text \<open>
  Claim C2, as the specification states it, fails: with the second cell
  \<open><a>Lake Tahoe</a>\<close> the loop stops at the link before it has read any text, the
  water name is empty and the row is skipped, so the results for El Dorado are empty.
\<close>

theorem linked_name_row_counterexample:
  "find_all ''td'' linked_name_row =
     [td ''06/01/2025 - 06/07/2025'', Elem ''td'' [Elem ''a'' [Text ''Lake Tahoe'']],
      td ''El Dorado'', td ''Rainbow Trout''] \<and>
   water_name_loop [] (contents (find_all ''td'' linked_name_row ! 1)) = [] \<and>
   row_plant ''El Dorado'' linked_name_row = None \<and>
   get_fish_plants_for_county (page_of [linked_name_row]) (2025, 6, 5) ''El Dorado'' = Inr []"
  by code_simp

text \<open>
  Claim C2, amended. With the name before the link in the second cell, whatever the
  text of the link, the water name is \<open>Lake Tahoe\<close>, the start date is 2025-06-01, and
  the event is in the results for El Dorado, as \<open>recent\<close> from that day on and as
  \<open>upcoming\<close> before.
\<close>

theorem name_before_link_is_water_name:
  "find_all ''td'' (name_then_link_row link_text) ! 1 =
     Elem ''td'' [Text ''Lake Tahoe'', Elem ''a'' [Text link_text]] \<and>
   row_plant ''El Dorado'' (name_then_link_row link_text) =
     Some \<lparr>water = ''Lake Tahoe'', date = (2025, 6, 1), week = ''06/01/2025 - 06/07/2025'',
           species = ''Rainbow Trout''\<rparr> \<and>
   get_fish_plants_for_county (page_of [name_then_link_row link_text]) today ''El Dorado'' =
     Inr [(''Lake Tahoe'',
           \<lparr>recent =
              (if (2025, 6, 1) \<le> today
               then Some \<lparr>water = ''Lake Tahoe'', date = (2025, 6, 1),
                          week = ''06/01/2025 - 06/07/2025'', species = ''Rainbow Trout''\<rparr>
               else None),
            upcoming =
              (if today < (2025, 6, 1)
               then Some \<lparr>water = ''Lake Tahoe'', date = (2025, 6, 1),
                          week = ''06/01/2025 - 06/07/2025'', species = ''Rainbow Trout''\<rparr>
               else None)\<rparr>)]"
proof -
  have plants: "plants_of ''El Dorado'' [name_then_link_row link_text] =
      [tahoe_event ''06/01/2025 - 06/07/2025'' (2025, 6, 1) ''Rainbow Trout'']"
    by (simp add: plants_of_def List.map_filter_def name_then_link_plant)
  have "get_fish_plants_for_county (page_of [name_then_link_row link_text]) today ''El Dorado'' =
     Inr (sort_key fst (map (result_item today)
       (grouped_of [tahoe_event ''06/01/2025 - 06/07/2025'' (2025, 6, 1) ''Rainbow Trout''])))"
    unfolding get_fish_plants_for_county_def page_of_def
    by (simp only: http_result.case page_rows option.case Let_def table_rows plants)
  then show ?thesis
    by (simp add: name_then_link_cols name_then_link_plant grouped_of_def result_item_def
        tahoe_event_def)
qed


theorem name_before_link_is_water_name_witness:
  "get_fish_plants_for_county (page_of [name_then_link_row ''Map'']) (2025, 6, 5) ''El Dorado'' =
     Inr [(''Lake Tahoe'',
           \<lparr>recent = Some \<lparr>water = ''Lake Tahoe'', date = (2025, 6, 1),
                          week = ''06/01/2025 - 06/07/2025'', species = ''Rainbow Trout''\<rparr>,
            upcoming = None\<rparr>)]"
  using name_before_link_is_water_name [of "''Map''" "(2025, 6, 5)"] by simp

section \<open>The county filter\<close>







end
